theory Spec2Isabelle
  imports Complex_Main "HOL-Library.Sublist"
begin

section \<open>The load-cell sketch of h2lantern\<close>

text \<open>
  The sketch (\<^verbatim>\<open>src/unnamed/part_001\<close>, from line 322 on) declares a global
  \<^verbatim>\<open>HX711 loadcell\<close>, a global \<^verbatim>\<open>float scale = 1.\<close>, the constant
  \<^verbatim>\<open>int const avg_count = 10\<close>, and the two Arduino entry points \<^verbatim>\<open>setup()\<close>
  and \<^verbatim>\<open>loop()\<close>. The class \<^verbatim>\<open>HX711\<close> (header \<^verbatim>\<open>HX711.h\<close>) and the
  \<^verbatim>\<open>Serial\<close> object are used by the sketch but their code is not among the source
  files; their operations are modelled from the specification and marked so.

  Numbers of type \<^verbatim>\<open>float\<close> are modelled as exact reals: rounding is not modelled.
  A division whose divisor is zero does not give a number in floating point, and is
  modelled by the value \<open>NonFinite\<close>.
\<close>

subsection \<open>Floating-point results\<close>

datatype flt = Finite real | NonFinite

definition fdiv :: "real \<Rightarrow> real \<Rightarrow> flt" where
  "fdiv x y = (if y = 0 then NonFinite else Finite (x / y))"

definition to_integer :: "real \<Rightarrow> int" where
  \<comment> \<open>storing a float in an integer variable drops the fractional part\<close>
  "to_integer x = (if 0 \<le> x then \<lfloor>x\<rfloor> else \<lceil>x\<rceil>)"

subsection \<open>The instrument (class HX711)\<close>

text \<open>
  Modelled from the spec: the class \<^verbatim>\<open>HX711\<close>, whose header is included by the sketch
  and whose code is missing. The instrument state of the spec has \<open>offset: integer\<close>
  (0 before the first tare) and \<open>scale: float\<close> (initially 1.0) and owns the channel.
  The channel is the sequence \<open>adc\<close> of conversions it will deliver, in order, and
  \<open>taken\<close> counts the conversions consumed so far; waiting for a conversion is not
  modelled. \<open>TARE_TIMES\<close> is the fixed internal averaging count of \<open>tare()\<close>: the spec
  gives it no value, so it is a field that no operation writes.
\<close>

record hx711 =
  OFFSET :: int
  SCALE :: real
  adc :: "nat \<Rightarrow> int"
  taken :: nat
  TARE_TIMES :: nat

text \<open>Modelled from the spec: \<open>read_raw()\<close> (the sketch calls it \<^verbatim>\<open>read()\<close>)
  returns the next conversion, uncorrected, and consumes it.\<close>

definition read_raw :: "hx711 \<Rightarrow> int \<times> hx711" where
  "read_raw d = (adc d (taken d), d\<lparr>taken := Suc (taken d)\<rparr>)"

text \<open>Modelled from the spec: \<open>read_average(n)\<close> calls \<open>read_raw()\<close> \<open>n\<close> times
  sequentially (the loop \<open>read_sum\<close>, which adds each sample to the running sum) and
  returns the mean. The spec defines it for positive \<open>n\<close> only.\<close>

fun read_sum :: "nat \<Rightarrow> int \<Rightarrow> hx711 \<Rightarrow> int \<times> hx711" where
  "read_sum 0 acc d = (acc, d)"
| "read_sum (Suc n) acc d = (case read_raw d of (r, d') \<Rightarrow> read_sum n (acc + r) d')"

definition read_average :: "nat \<Rightarrow> hx711 \<Rightarrow> real \<times> hx711" where
  "read_average n d = (case read_sum n 0 d of (s, d') \<Rightarrow> (real_of_int s / real n, d'))"

text \<open>Modelled from the spec: \<open>get_value(n)\<close> returns \<open>read_average(n) - offset\<close>.\<close>

definition get_value :: "nat \<Rightarrow> hx711 \<Rightarrow> real \<times> hx711" where
  "get_value n d = (case read_average n d of (a, d') \<Rightarrow> (a - real_of_int (OFFSET d'), d'))"

text \<open>Modelled from the spec: \<open>get_units(n)\<close> returns \<open>get_value(n) / scale\<close>.\<close>

definition get_units :: "nat \<Rightarrow> hx711 \<Rightarrow> flt \<times> hx711" where
  "get_units n d = (case get_value n d of (v, d') \<Rightarrow> (fdiv v (SCALE d'), d'))"

text \<open>Modelled from the spec: \<open>tare()\<close> sets \<open>offset = read_average(k)\<close> for the fixed
  internal count \<open>k\<close>; the offset is an integer.\<close>

definition tare :: "hx711 \<Rightarrow> hx711" where
  "tare d = (case read_average (TARE_TIMES d) d of (a, d') \<Rightarrow> d'\<lparr>OFFSET := to_integer a\<rparr>)"

text \<open>Modelled from the spec: \<open>set_scale(value)\<close> sets \<open>scale = value\<close> unconditionally.\<close>

definition set_scale :: "real \<Rightarrow> hx711 \<Rightarrow> hx711" where
  "set_scale v d = d\<lparr>SCALE := v\<rparr>"

subsection \<open>The serial port\<close>

text \<open>What the sketch writes to the port, call by call: \<^verbatim>\<open>print\<close> and \<^verbatim>\<open>println\<close> of a
  text, \<^verbatim>\<open>println\<close> of an integer, and \<^verbatim>\<open>println\<close> of a float with its number of
  decimal places (2 when the call names none).\<close>

datatype serial_msg =
    Print string
  | Println string
  | PrintlnInt int
  | PrintlnFloat flt nat

definition is_digit :: "char \<Rightarrow> bool" where
  "is_digit c = (48 \<le> (of_char c :: nat) \<and> (of_char c :: nat) \<le> 57)"

fun digits_val :: "nat \<Rightarrow> string \<Rightarrow> nat" where
  "digits_val acc [] = acc"
| "digits_val acc (c # cs) = digits_val (acc * 10 + (of_char c - 48)) cs"

definition skip_sign :: "string \<Rightarrow> bool \<times> string" where
  "skip_sign inp = (case inp of
       [] \<Rightarrow> (False, inp)
     | c # cs \<Rightarrow> if c = CHR ''-'' then (True, cs) else (False, inp))"

definition fraction :: "string \<Rightarrow> string \<times> string" where
  "fraction inp = (case inp of
       [] \<Rightarrow> ([], inp)
     | c # cs \<Rightarrow> if c = CHR ''.'' then (takeWhile is_digit cs, dropWhile is_digit cs)
                else ([], inp))"

text \<open>Modelled from the spec: \<^verbatim>\<open>Serial.parseFloat()\<close>, of the Arduino core, whose code
  is missing. It parses the floating-point literal that immediately follows on the
  input stream (an optional minus sign, digits, and an optional point with further
  digits) and returns its value with the bytes left; where no such literal follows it
  returns the numeric default zero, and the bytes are left as they are.\<close>

definition parseFloat :: "string \<Rightarrow> real \<times> string" where
  "parseFloat inp =
     (case skip_sign inp of (neg, r0) \<Rightarrow>
        let ip = takeWhile is_digit r0; r1 = dropWhile is_digit r0 in
        if ip = [] then (0, inp)
        else (case fraction r1 of (fp, r2) \<Rightarrow>
          let v = real (digits_val 0 ip) + real (digits_val 0 fp) / 10 ^ length fp
          in (if neg then - v else v, r2)))"


subsection \<open>The sketch\<close>

text \<open>The globals of the sketch, with the bytes waiting on the serial port and what
  has been written to it. The bytes of a run are all in \<open>serial_in\<close> from the start:
  when they arrive is not modelled.\<close>

record sketch =
  scale :: real
  loadcell :: hx711
  serial_in :: string
  serial_out :: "serial_msg list"

definition avg_count :: nat where
  "avg_count = 10"

definition steady :: "int \<Rightarrow> nat \<Rightarrow> int" where
  \<comment> \<open>a channel on which every conversion has the same value\<close>
  "steady c i = c"

definition initial :: "(nat \<Rightarrow> int) \<Rightarrow> nat \<Rightarrow> string \<Rightarrow> sketch" where
  \<comment> \<open>\<^verbatim>\<open>HX711 loadcell; float scale = 1.;\<close> with the channel, the count of \<open>tare()\<close>
      and the bytes that will arrive\<close>
  "initial samples k inp =
     \<lparr>scale = 1,
      loadcell = \<lparr>OFFSET = 0, SCALE = 1, adc = samples, taken = 0, TARE_TIMES = k\<rparr>,
      serial_in = inp,
      serial_out = []\<rparr>"

definition emit :: "serial_msg list \<Rightarrow> sketch \<Rightarrow> sketch" where
  "emit ms s = s\<lparr>serial_out := serial_out s @ ms\<rparr>"

text \<open>\<^verbatim>\<open>setup()\<close>: \<^verbatim>\<open>Serial.begin\<close>, \<^verbatim>\<open>loadcell.begin\<close> and \<^verbatim>\<open>delay\<close> change
  nothing of the state modelled here; then the diagnostic reads, each printed after its
  label.\<close>

definition setup_sketch :: "sketch \<Rightarrow> sketch" where
  "setup_sketch s =
     (let s0 = emit [Println ''Initializing scale'', Print ''  + Averaging: '',
                     PrintlnInt (int avg_count)] s;
          (r, d1) = read_raw (loadcell s0);
          s1 = emit [Print ('' + read: '' @ [CHR 0x09, CHR 0x09]), PrintlnInt r] (s0\<lparr>loadcell := d1\<rparr>);
          (a, d2) = read_average 20 (loadcell s1);
          s2 = emit [Print ('' + read average: '' @ [CHR 0x09, CHR 0x09]), PrintlnFloat (Finite a) 2] (s1\<lparr>loadcell := d2\<rparr>);
          (v, d3) = get_value 5 (loadcell s2);
          s3 = emit [Print ('' + get value: '' @ [CHR 0x09, CHR 0x09]), PrintlnFloat (Finite v) 2] (s2\<lparr>loadcell := d3\<rparr>);
          (u, d4) = get_units 5 (loadcell s3);
          s4 = emit [Print ('' + get units: '' @ [CHR 0x09, CHR 0x09]), PrintlnFloat u 1] (s3\<lparr>loadcell := d4\<rparr>)
      in emit [Println ''Commands: (R)ead, (T)are, (C)alibrate, (A)DC''] s4)"

text \<open>\<^verbatim>\<open>loop()\<close>: one pass. With no byte waiting it does nothing; otherwise it reads
  one byte and switches on it.\<close>

definition loop :: "sketch \<Rightarrow> sketch" where
  "loop s =
     (case serial_in s of
        [] \<Rightarrow> s
      | cmd # rest \<Rightarrow>
          if cmd = CHR ''C'' then
            (case parseFloat rest of (x, rest') \<Rightarrow>
               emit [Print ''Scale calibrated: '', PrintlnFloat (Finite x) 2]
                 (s\<lparr>scale := x, loadcell := set_scale x (loadcell s), serial_in := rest'\<rparr>))
          else if cmd = CHR ''R'' then
            (case get_units avg_count (loadcell s) of (u, d') \<Rightarrow>
               emit [PrintlnFloat u 1] (s\<lparr>loadcell := d', serial_in := rest\<rparr>))
          else if cmd = CHR ''T'' then
            s\<lparr>loadcell := tare (loadcell s), serial_in := rest\<rparr>
          else if cmd = CHR ''A'' then
            (case read_average avg_count (loadcell s) of (a, d') \<Rightarrow>
               emit [PrintlnFloat (Finite a) 2] (s\<lparr>loadcell := d', serial_in := rest\<rparr>))
          else s\<lparr>serial_in := rest\<rparr>)"

text \<open>The next \<open>n\<close> conversions of the channel from position \<open>t\<close> on, and the
  unweighted arithmetic mean of a list of samples, as the spec words it:
  \<open>(r_1 + ... + r_n) / n\<close>.\<close>

definition samples_from :: "hx711 \<Rightarrow> nat \<Rightarrow> nat \<Rightarrow> int list" where
  "samples_from d t n = map (adc d) [t..<t + n]"

definition mean :: "int list \<Rightarrow> real" where
  "mean rs = real_of_int (sum_list rs) / real (length rs)"

text \<open>The state after \<open>setup()\<close> and \<open>n\<close> passes of \<open>loop()\<close>, from the initial
  state on the input \<open>inp\<close>; and whether the next pass takes a \<open>C\<close> command.\<close>

definition run :: "(nat \<Rightarrow> int) \<Rightarrow> nat \<Rightarrow> string \<Rightarrow> nat \<Rightarrow> sketch" where
  "run samples k inp n = (loop ^^ n) (setup_sketch (initial samples k inp))"

definition takes_C :: "sketch \<Rightarrow> bool" where
  "takes_C s = (case serial_in s of [] \<Rightarrow> False | c # rest \<Rightarrow> c = CHR ''C'')"

section \<open>Properties\<close>

subsection \<open>The averaged read\<close>

lemma read_sum_closed:
  "read_sum n acc d = (acc + (\<Sum>i<n. adc d (taken d + i)), d\<lparr>taken := taken d + n\<rparr>)"
proof (induction n arbitrary: acc d)
  case 0
  show ?case by simp
next
  case (Suc n)
  have "(\<Sum>i<Suc n. adc d (taken d + i)) = adc d (taken d + 0) + (\<Sum>i<n. adc d (taken d + Suc i))"
    by (rule sum.lessThan_Suc_shift)
  then show ?case
    by (simp add: read_raw_def Suc.IH del: sum.lessThan_Suc)
qed

lemma sum_samples_from:
  "sum_list (samples_from d t n) = (\<Sum>i<n. adc d (t + i))"
proof -
  have "sum_list (map (adc d) [t..<t + n]) = sum (adc d) {t..<t + n}"
    by (simp add: interv_sum_list_conv_sum_set_nat)
  also have "\<dots> = (\<Sum>i<n. adc d (t + i))"
    using sum.shift_bounds_nat_ivl [of "adc d" 0 t n] by (simp add: atLeast0LessThan add.commute)
  finally show ?thesis by (simp add: samples_from_def)
qed

lemma length_samples_from: "length (samples_from d t n) = n"
  by (simp add: samples_from_def)

lemma read_average_closed:
  "read_average n d = (mean (samples_from d (taken d) n), d\<lparr>taken := taken d + n\<rparr>)"
  by (simp add: read_average_def read_sum_closed mean_def sum_samples_from length_samples_from)

lemma get_value_closed:
  "get_value n d =
     (mean (samples_from d (taken d) n) - real_of_int (OFFSET d), d\<lparr>taken := taken d + n\<rparr>)"
  by (simp add: get_value_def read_average_closed)

lemma get_units_closed:
  "get_units n d =
     (fdiv (mean (samples_from d (taken d) n) - real_of_int (OFFSET d)) (SCALE d),
      d\<lparr>taken := taken d + n\<rparr>)"
  by (simp add: get_units_def get_value_closed)

lemma tare_closed:
  "tare d = d\<lparr>taken := taken d + TARE_TIMES d,
             OFFSET := to_integer (mean (samples_from d (taken d) (TARE_TIMES d)))\<rparr>"
  by (simp add: tare_def read_average_closed)

lemma mean_steady:
  "0 < n \<Longrightarrow> adc d = steady c \<Longrightarrow> mean (samples_from d t n) = real_of_int c"
  by (simp add: mean_def sum_samples_from steady_def length_samples_from)

lemma to_integer_of_int: "to_integer (real_of_int c) = c"
  by (simp add: to_integer_def)

lemma read_raw_funpow: "((snd \<circ> read_raw) ^^ i) d = d\<lparr>taken := taken d + i\<rparr>"
  by (induction i) (simp_all add: read_raw_def)

lemma samples_from_read_raw:
  "map (\<lambda>i. fst (read_raw (((snd \<circ> read_raw) ^^ i) d))) [0..<n] = samples_from d (taken d) n"
proof -
  have "map (\<lambda>i. adc d (taken d + i)) [0..<n] = map (adc d) (map (\<lambda>i. taken d + i) [0..<n])"
    by simp
  also have "map (\<lambda>i. taken d + i) [0..<n] = [taken d..<taken d + n]"
    using map_add_upt [of "taken d" n] by (simp add: add.commute)
  finally show ?thesis
    by (simp add: read_raw_funpow read_raw_def samples_from_def)
qed

text \<open>
  Claim C3. For every positive \<open>n\<close>, \<open>read_average(n)\<close> calls \<open>read_raw\<close> exactly
  \<open>n\<close> times, one after the other: the instrument is left in the state reached by
  \<open>n\<close> successive calls of \<open>read_raw\<close> (so \<open>n\<close> conversions are consumed), the
  samples are the results of these calls in order, and the value returned is their
  unweighted arithmetic mean, the sum of the \<open>n\<close> samples divided by \<open>n\<close>.
\<close>

theorem read_average_mean:
  "0 < n \<Longrightarrow>
     read_average n d = (mean (samples_from d (taken d) n), ((snd \<circ> read_raw) ^^ n) d)
     \<and> samples_from d (taken d) n =
         map (\<lambda>i. fst (read_raw (((snd \<circ> read_raw) ^^ i) d))) [0..<n]
     \<and> length (samples_from d (taken d) n) = n
     \<and> taken (snd (read_average n d)) = taken d + n"
proof -
  have "read_average n d = (mean (samples_from d (taken d) n), ((snd \<circ> read_raw) ^^ n) d)"
    by (simp add: read_average_closed read_raw_funpow)
  moreover have "taken (snd (read_average n d)) = taken d + n"
    by (simp add: read_average_closed)
  ultimately show ?thesis
    using samples_from_read_raw [of d n, symmetric] length_samples_from [of d "taken d" n]
    by blast
qed

theorem read_average_mean_witness:
  "0 < (3::nat) \<and>
   read_average 3 \<lparr>OFFSET = 0, SCALE = 1, adc = int, taken = 2, TARE_TIMES = 4\<rparr> =
     (3, \<lparr>OFFSET = 0, SCALE = 1, adc = int, taken = 5, TARE_TIMES = 4\<rparr>)"
  using read_average_mean [of 3 "\<lparr>OFFSET = 0, SCALE = 1, adc = int, taken = 2, TARE_TIMES = 4\<rparr>"]
  by (simp add: mean_def samples_from_def upt_rec read_raw_def eval_nat_numeral)

text \<open>
  Claim C2. For every positive \<open>n\<close> and every instrument state, \<open>get_units(n)\<close> is
  \<open>get_value(n)\<close> divided by the scale: the quotient of the two numbers where the
  scale is not zero, and no finite number where it is zero; \<open>get_value(n)\<close> being
  \<open>read_average(n)\<close> less the offset. With scale 1.0 and offset 0, \<open>get_units(n)\<close>
  equals \<open>read_average(n)\<close>.
\<close>

theorem get_units_value_over_scale:
  "0 < n \<Longrightarrow>
     get_units n d =
       (if SCALE d = 0 then NonFinite else Finite (fst (get_value n d) / SCALE d),
        snd (get_value n d))
     \<and> fst (get_value n d) = fst (read_average n d) - real_of_int (OFFSET d)
     \<and> (SCALE d = 1 \<and> OFFSET d = 0 \<longrightarrow>
          get_units n d = (Finite (fst (read_average n d)), snd (read_average n d)))"
  by (simp add: get_units_closed get_value_closed read_average_closed fdiv_def)

theorem get_units_value_over_scale_witness:
  "0 < (2::nat) \<and>
   get_units 2 \<lparr>OFFSET = 1, SCALE = 5, adc = int, taken = 3, TARE_TIMES = 4\<rparr> =
     (Finite (1 / 2), \<lparr>OFFSET = 1, SCALE = 5, adc = int, taken = 5, TARE_TIMES = 4\<rparr>) \<and>
   get_units 2 \<lparr>OFFSET = 1, SCALE = 0, adc = int, taken = 3, TARE_TIMES = 4\<rparr> =
     (NonFinite, \<lparr>OFFSET = 1, SCALE = 0, adc = int, taken = 5, TARE_TIMES = 4\<rparr>) \<and>
   get_units 2 \<lparr>OFFSET = 0, SCALE = 1, adc = int, taken = 3, TARE_TIMES = 4\<rparr> =
     (Finite (7 / 2), \<lparr>OFFSET = 0, SCALE = 1, adc = int, taken = 5, TARE_TIMES = 4\<rparr>)"
  using get_units_value_over_scale [of 2 "\<lparr>OFFSET = 1, SCALE = 5, adc = int, taken = 3, TARE_TIMES = 4\<rparr>"]
        get_units_value_over_scale [of 2 "\<lparr>OFFSET = 1, SCALE = 0, adc = int, taken = 3, TARE_TIMES = 4\<rparr>"]
        get_units_value_over_scale [of 2 "\<lparr>OFFSET = 0, SCALE = 1, adc = int, taken = 3, TARE_TIMES = 4\<rparr>"]
  by (simp add: read_average_closed get_value_closed mean_def samples_from_def upt_rec)





lemma loop_empty: "serial_in s = [] \<Longrightarrow> loop s = s"
  by (simp add: loop_def)

lemma loop_C:
  "serial_in s = CHR ''C'' # rest \<Longrightarrow>
   loop s = s\<lparr>scale := fst (parseFloat rest),
              loadcell := (loadcell s)\<lparr>SCALE := fst (parseFloat rest)\<rparr>,
              serial_in := snd (parseFloat rest),
              serial_out := serial_out s @
                [Print ''Scale calibrated: '', PrintlnFloat (Finite (fst (parseFloat rest))) 2]\<rparr>"
  by (simp add: loop_def emit_def set_scale_def split: prod.splits)

lemma loop_R:
  "serial_in s = CHR ''R'' # rest \<Longrightarrow>
   loop s = s\<lparr>loadcell := snd (get_units avg_count (loadcell s)),
              serial_in := rest,
              serial_out := serial_out s @ [PrintlnFloat (fst (get_units avg_count (loadcell s))) 1]\<rparr>"
  by (simp add: loop_def emit_def split: prod.splits)

lemma loop_T:
  "serial_in s = CHR ''T'' # rest \<Longrightarrow>
   loop s = s\<lparr>loadcell := tare (loadcell s), serial_in := rest\<rparr>"
  by (simp add: loop_def)

lemma loop_A:
  "serial_in s = CHR ''A'' # rest \<Longrightarrow>
   loop s = s\<lparr>loadcell := snd (read_average avg_count (loadcell s)),
              serial_in := rest,
              serial_out := serial_out s @
                [PrintlnFloat (Finite (fst (read_average avg_count (loadcell s)))) 2]\<rparr>"
  by (simp add: loop_def emit_def split: prod.splits)

lemma loop_other:
  "serial_in s = c # rest \<Longrightarrow> c \<notin> {CHR ''C'', CHR ''R'', CHR ''T'', CHR ''A''} \<Longrightarrow>
   loop s = s\<lparr>serial_in := rest\<rparr>"
  by (simp add: loop_def)

subsection \<open>The dispatch loop\<close>

text \<open>
  Claim C5. One pass of the loop with no byte waiting changes nothing. For every byte
  the loop dispatches: the offset changes only if the byte is \<open>T\<close>; the scale (the
  sketch's variable and the instrument's field) changes only if the byte is \<open>C\<close>; so
  \<open>R\<close>, \<open>A\<close> and every other byte leave both as they were. A byte outside
  \<open>C\<close>, \<open>R\<close>, \<open>T\<close>, \<open>A\<close> is only removed from the input: nothing else
  of the state changes and nothing is written.
\<close>

theorem loop_frame:
  "(serial_in s = [] \<longrightarrow> loop s = s) \<and>
   (\<forall>c rest. serial_in s = c # rest \<longrightarrow>
      (c \<noteq> CHR ''T'' \<longrightarrow> OFFSET (loadcell (loop s)) = OFFSET (loadcell s)) \<and>
      (c \<noteq> CHR ''C'' \<longrightarrow>
         scale (loop s) = scale s \<and> SCALE (loadcell (loop s)) = SCALE (loadcell s)) \<and>
      (c \<notin> {CHR ''C'', CHR ''R'', CHR ''T'', CHR ''A''} \<longrightarrow>
         loop s = s\<lparr>serial_in := rest\<rparr> \<and> serial_out (loop s) = serial_out s))"
proof (intro conjI allI impI)
  assume "serial_in s = []"
  then show "loop s = s" by (rule loop_empty)
next
  fix c rest
  assume inp: "serial_in s = c # rest" and c: "c \<noteq> CHR ''T''"
  consider "c = CHR ''C''" | "c = CHR ''R''" | "c = CHR ''A''"
    | "c \<notin> {CHR ''C'', CHR ''R'', CHR ''T'', CHR ''A''}"
    using c by auto
  then show "OFFSET (loadcell (loop s)) = OFFSET (loadcell s)"
  proof cases
    case 1
    then show ?thesis using inp by (simp add: loop_C)
  next
    case 2
    then show ?thesis using inp by (simp add: loop_R get_units_closed)
  next
    case 3
    then show ?thesis using inp by (simp add: loop_A read_average_closed)
  next
    case 4
    then show ?thesis using inp by (simp add: loop_other)
  qed
next
  fix c rest
  assume inp: "serial_in s = c # rest" and c: "c \<noteq> CHR ''C''"
  consider "c = CHR ''T''" | "c = CHR ''R''" | "c = CHR ''A''"
    | "c \<notin> {CHR ''C'', CHR ''R'', CHR ''T'', CHR ''A''}"
    using c by auto
  then have "scale (loop s) = scale s \<and> SCALE (loadcell (loop s)) = SCALE (loadcell s)"
  proof cases
    case 1
    then show ?thesis using inp by (simp add: loop_T tare_closed)
  next
    case 2
    then show ?thesis using inp by (simp add: loop_R get_units_closed)
  next
    case 3
    then show ?thesis using inp by (simp add: loop_A read_average_closed)
  next
    case 4
    then show ?thesis using inp by (simp add: loop_other)
  qed
  then show "scale (loop s) = scale s" and "SCALE (loadcell (loop s)) = SCALE (loadcell s)"
    by simp_all
next
  fix c rest
  assume inp: "serial_in s = c # rest"
    and c: "c \<notin> {CHR ''C'', CHR ''R'', CHR ''T'', CHR ''A''}"
  then show "loop s = s\<lparr>serial_in := rest\<rparr>" by (rule loop_other)
  then show "serial_out (loop s) = serial_out s" by simp
qed

theorem loop_frame_witness:
  "loop (initial (steady 7) 3 ''Z'') = initial (steady 7) 3 []
   \<and> OFFSET (loadcell (loop (initial (steady 7) 3 ''RZ''))) = 0
   \<and> SCALE (loadcell (loop (initial (steady 7) 3 ''TZ''))) = 1"
  using loop_frame [of "initial (steady 7) 3 ''Z''"]
        loop_frame [of "initial (steady 7) 3 ''RZ''"]
        loop_frame [of "initial (steady 7) 3 ''TZ''"]
  by (simp add: initial_def)

text \<open>
  Claim C10. \<open>avg_count\<close> is the constant 10 (it is no part of the state, so no pass
  can change it), and in every state an \<open>R\<close> command is \<open>get_units(10)\<close> and an
  \<open>A\<close> command is \<open>read_average(10)\<close>: each consumes exactly 10 conversions and
  prints its result.
\<close>

theorem loop_avg_count:
  "avg_count = 10 \<and>
   (serial_in s = CHR ''R'' # rest \<longrightarrow>
      loop s = s\<lparr>loadcell := snd (get_units 10 (loadcell s)),
                 serial_in := rest,
                 serial_out := serial_out s @ [PrintlnFloat (fst (get_units 10 (loadcell s))) 1]\<rparr>
      \<and> taken (loadcell (loop s)) = taken (loadcell s) + 10) \<and>
   (serial_in s = CHR ''A'' # rest \<longrightarrow>
      loop s = s\<lparr>loadcell := snd (read_average 10 (loadcell s)),
                 serial_in := rest,
                 serial_out := serial_out s @
                   [PrintlnFloat (Finite (fst (read_average 10 (loadcell s)))) 2]\<rparr>
      \<and> taken (loadcell (loop s)) = taken (loadcell s) + 10)"
proof (intro conjI impI)
  show "avg_count = 10" by (simp add: avg_count_def)
next
  assume "serial_in s = CHR ''R'' # rest"
  then have l: "loop s = s\<lparr>loadcell := snd (get_units 10 (loadcell s)),
                 serial_in := rest,
                 serial_out := serial_out s @ [PrintlnFloat (fst (get_units 10 (loadcell s))) 1]\<rparr>"
    using loop_R [of s rest] by (simp add: avg_count_def)
  then show "loop s = s\<lparr>loadcell := snd (get_units 10 (loadcell s)),
                 serial_in := rest,
                 serial_out := serial_out s @ [PrintlnFloat (fst (get_units 10 (loadcell s))) 1]\<rparr>" .
  show "taken (loadcell (loop s)) = taken (loadcell s) + 10"
    by (simp add: l get_units_closed)
next
  assume "serial_in s = CHR ''A'' # rest"
  then have l: "loop s = s\<lparr>loadcell := snd (read_average 10 (loadcell s)),
                 serial_in := rest,
                 serial_out := serial_out s @
                   [PrintlnFloat (Finite (fst (read_average 10 (loadcell s)))) 2]\<rparr>"
    using loop_A [of s rest] by (simp add: avg_count_def)
  then show "loop s = s\<lparr>loadcell := snd (read_average 10 (loadcell s)),
                 serial_in := rest,
                 serial_out := serial_out s @
                   [PrintlnFloat (Finite (fst (read_average 10 (loadcell s)))) 2]\<rparr>" .
  show "taken (loadcell (loop s)) = taken (loadcell s) + 10"
    by (simp add: l read_average_closed)
qed

theorem loop_avg_count_witness:
  "serial_out (loop (initial (steady 7) 3 ''R'')) = [PrintlnFloat (Finite 7) 1]
   \<and> taken (loadcell (loop (initial (steady 7) 3 ''R''))) = 10
   \<and> serial_out (loop (initial (steady 7) 3 ''A'')) = [PrintlnFloat (Finite 7) 2]
   \<and> taken (loadcell (loop (initial (steady 7) 3 ''A''))) = 10"
  using loop_avg_count [of "initial (steady 7) 3 ''R''" "[]"]
        loop_avg_count [of "initial (steady 7) 3 ''A''" "[]"]
  by (simp add: initial_def get_units_closed read_average_closed mean_steady fdiv_def)

subsection \<open>Startup\<close>

text \<open>
  Claim C8. \<open>setup()\<close> performs, in this order, one \<open>read_raw\<close>, one
  \<open>read_average(20)\<close>, one \<open>get_value(5)\<close> and one \<open>get_units(5)\<close>, each on the
  instrument state the previous one left, and prints each result after its label; it
  consumes 1 + 20 + 5 + 5 conversions and no byte of the input, so all of this
  precedes the first pass of the loop.
\<close>

theorem setup_sequence:
  "setup_sketch s =
     (let d = loadcell s;
          d1 = snd (read_raw d);
          d2 = snd (read_average 20 d1);
          d3 = snd (get_value 5 d2);
          d4 = snd (get_units 5 d3)
      in s\<lparr>loadcell := d4,
            serial_out := serial_out s @
              [Println ''Initializing scale'', Print ''  + Averaging: '', PrintlnInt 10,
               Print ('' + read: '' @ [CHR 0x09, CHR 0x09]), PrintlnInt (fst (read_raw d)),
               Print ('' + read average: '' @ [CHR 0x09, CHR 0x09]),
               PrintlnFloat (Finite (fst (read_average 20 d1))) 2,
               Print ('' + get value: '' @ [CHR 0x09, CHR 0x09]),
               PrintlnFloat (Finite (fst (get_value 5 d2))) 2,
               Print ('' + get units: '' @ [CHR 0x09, CHR 0x09]),
               PrintlnFloat (fst (get_units 5 d3)) 1,
               Println ''Commands: (R)ead, (T)are, (C)alibrate, (A)DC'']\<rparr>)
   \<and> taken (loadcell (setup_sketch s)) = taken (loadcell s) + 1 + 20 + 5 + 5
   \<and> serial_in (setup_sketch s) = serial_in s"
  by (simp add: setup_sketch_def emit_def avg_count_def Let_def read_raw_def
        read_average_closed get_value_closed get_units_closed split: prod.splits)

subsection \<open>Calibration and reading\<close>






text \<open>
  Claim C1. With the input \<open>C10.0\<close>, newline, \<open>R\<close>, every raw sample equal to 100
  and offset 0: after the pass that takes \<open>C\<close> and its argument the scale is 10.0
  (the newline and \<open>R\<close> are still waiting), and after the third pass, which takes
  \<open>R\<close>, the value reported is 10.0, with one decimal place.
\<close>

theorem calibrate_then_read:
  "serial_in s = ''C10.0'' @ [CHR 0x0A] @ ''R'' \<Longrightarrow>
   adc (loadcell s) = steady 100 \<Longrightarrow> OFFSET (loadcell s) = 0 \<Longrightarrow>
     scale (loop s) = 10 \<and> SCALE (loadcell (loop s)) = 10
     \<and> serial_in (loop s) = [CHR 0x0A, CHR ''R'']
     \<and> serial_out (loop s) = serial_out s @ [Print ''Scale calibrated: '', PrintlnFloat (Finite 10) 2]
     \<and> serial_out ((loop ^^ 3) s) =
         serial_out s @ [Print ''Scale calibrated: '', PrintlnFloat (Finite 10) 2,
                         PrintlnFloat (Finite 10) 1]"
proof -
  assume inp: "serial_in s = ''C10.0'' @ [CHR 0x0A] @ ''R''"
    and adc: "adc (loadcell s) = steady 100" and off: "OFFSET (loadcell s) = 0"
  define s1 where "s1 = loop s"
  define s2 where "s2 = loop s1"
  have p: "parseFloat (''10.0'' @ [CHR 0x0A] @ ''R'') = (10, [CHR 0x0A, CHR ''R''])"
    by (simp add: parseFloat_def skip_sign_def fraction_def is_digit_def Let_def)
  have l1: "s1 = s\<lparr>scale := 10, loadcell := (loadcell s)\<lparr>SCALE := 10\<rparr>,
                     serial_in := [CHR 0x0A, CHR ''R''],
                     serial_out := serial_out s @
                       [Print ''Scale calibrated: '', PrintlnFloat (Finite 10) 2]\<rparr>"
    unfolding s1_def using inp p loop_C [of s "''10.0'' @ [CHR 0x0A] @ ''R''"] by simp
  have l2: "s2 = s1\<lparr>serial_in := ''R''\<rparr>"
    unfolding s2_def by (rule loop_other [of _ "CHR 0x0A" "''R''"]) (simp_all add: l1)
  have d2: "loadcell s2 = (loadcell s)\<lparr>SCALE := 10\<rparr>" and i2: "serial_in s2 = ''R''"
    and o2: "serial_out s2 = serial_out s @ [Print ''Scale calibrated: '', PrintlnFloat (Finite 10) 2]"
    by (simp_all add: l2 l1)
  have m: "mean (samples_from ((loadcell s)\<lparr>SCALE := 10\<rparr>) (taken (loadcell s)) 10) = 100"
    using mean_steady [of 10 "(loadcell s)\<lparr>SCALE := 10\<rparr>" 100 "taken (loadcell s)"] adc
    by simp
  have l3: "serial_out (loop s2) = serial_out s2 @ [PrintlnFloat (Finite 10) 1]"
    using loop_R [OF i2] off by (simp add: d2 get_units_closed avg_count_def m fdiv_def)
  have "(loop ^^ 3) s = loop s2"
    by (simp add: eval_nat_numeral s2_def s1_def)
  then show ?thesis
    using l3 o2 l1 by (simp add: s1_def [symmetric])
qed

theorem calibrate_then_read_witness:
  "serial_in (initial (steady 100) 3 (''C10.0'' @ [CHR 0x0A] @ ''R'')) = ''C10.0'' @ [CHR 0x0A] @ ''R''
   \<and> adc (loadcell (initial (steady 100) 3 (''C10.0'' @ [CHR 0x0A] @ ''R''))) = steady 100
   \<and> OFFSET (loadcell (initial (steady 100) 3 (''C10.0'' @ [CHR 0x0A] @ ''R''))) = 0
   \<and> scale (loop (initial (steady 100) 3 (''C10.0'' @ [CHR 0x0A] @ ''R''))) = 10
   \<and> serial_out ((loop ^^ 3) (initial (steady 100) 3 (''C10.0'' @ [CHR 0x0A] @ ''R''))) =
       [Print ''Scale calibrated: '', PrintlnFloat (Finite 10) 2, PrintlnFloat (Finite 10) 1]"
  using calibrate_then_read [of "initial (steady 100) 3 (''C10.0'' @ [CHR 0x0A] @ ''R'')"]
  by (simp add: initial_def)

text \<open>
  Claim C6. With the input \<open>TR\<close>, every raw sample equal to 50 and scale 1.0 (the
  count of \<open>tare()\<close> being positive): the pass that takes \<open>T\<close> writes nothing and
  leaves the offset at 50, and the pass that takes \<open>R\<close> reports 0.0.
\<close>

theorem tare_then_read:
  "serial_in s = ''TR'' \<Longrightarrow> adc (loadcell s) = steady 50 \<Longrightarrow> SCALE (loadcell s) = 1 \<Longrightarrow>
   0 < TARE_TIMES (loadcell s) \<Longrightarrow>
     serial_out (loop s) = serial_out s
     \<and> OFFSET (loadcell (loop s)) = 50
     \<and> serial_out (loop (loop s)) = serial_out s @ [PrintlnFloat (Finite 0) 1]"
proof -
  assume inp: "serial_in s = ''TR''" and adc: "adc (loadcell s) = steady 50"
    and sc: "SCALE (loadcell s) = 1" and k: "0 < TARE_TIMES (loadcell s)"
  have m: "mean (samples_from (loadcell s) (taken (loadcell s)) (TARE_TIMES (loadcell s))) = 50"
    using mean_steady [OF k adc] by simp
  have l1: "loop s = s\<lparr>loadcell := (loadcell s)\<lparr>taken := taken (loadcell s) + TARE_TIMES (loadcell s),
                                                  OFFSET := 50\<rparr>,
                        serial_in := ''R''\<rparr>"
    using inp loop_T [of s "''R''"] to_integer_of_int [of 50] by (simp add: tare_closed m)
  have l2: "serial_out (loop (loop s)) = serial_out (loop s) @ [PrintlnFloat (Finite 0) 1]"
    using adc sc
    by (simp add: l1 loop_R [of _ "[]"] get_units_closed avg_count_def mean_steady fdiv_def)
  show ?thesis
    using l2 by (simp add: l1)
qed

theorem tare_then_read_witness:
  "serial_in (initial (steady 50) 3 ''TR'') = ''TR''
   \<and> adc (loadcell (initial (steady 50) 3 ''TR'')) = steady 50
   \<and> SCALE (loadcell (initial (steady 50) 3 ''TR'')) = 1
   \<and> 0 < TARE_TIMES (loadcell (initial (steady 50) 3 ''TR''))
   \<and> serial_out (loop (initial (steady 50) 3 ''TR'')) = []
   \<and> serial_out (loop (loop (initial (steady 50) 3 ''TR''))) = [PrintlnFloat (Finite 0) 1]"
  using tare_then_read [of "initial (steady 50) 3 ''TR''"]
  by (simp add: initial_def)

subsection \<open>The scale along a run\<close>

lemma setup_sketch_frame:
  "scale (setup_sketch s) = scale s \<and> SCALE (loadcell (setup_sketch s)) = SCALE (loadcell s)
   \<and> serial_in (setup_sketch s) = serial_in s"
  by (simp add: setup_sketch_def emit_def Let_def read_raw_def
        read_average_closed get_value_closed get_units_closed split: prod.splits)

lemma run_0: "run samples k inp 0 = setup_sketch (initial samples k inp)"
  by (simp add: run_def)

lemma run_Suc: "run samples k inp (Suc n) = loop (run samples k inp n)"
  by (simp add: run_def)

lemma takes_C_iff: "takes_C s \<longleftrightarrow> (\<exists>rest. serial_in s = CHR ''C'' # rest)"
  by (auto simp: takes_C_def split: list.splits)

lemma loop_scale_C:
  "serial_in s = CHR ''C'' # rest \<Longrightarrow>
   scale (loop s) = fst (parseFloat rest) \<and> SCALE (loadcell (loop s)) = fst (parseFloat rest)"
  by (simp add: loop_C)

lemma loop_scale_other:
  "\<not> takes_C s \<Longrightarrow> scale (loop s) = scale s \<and> SCALE (loadcell (loop s)) = SCALE (loadcell s)"
proof (cases "serial_in s")
  case Nil
  then show ?thesis by (simp add: loop_empty)
next
  case (Cons c rest)
  assume "\<not> takes_C s"
  then have c: "c \<noteq> CHR ''C''" using Cons by (simp add: takes_C_def)
  consider "c = CHR ''R''" | "c = CHR ''T''" | "c = CHR ''A''"
    | "c \<notin> {CHR ''C'', CHR ''R'', CHR ''T'', CHR ''A''}"
    using c by auto
  then show ?thesis
  proof cases
    case 1
    then show ?thesis using Cons by (simp add: loop_R get_units_closed)
  next
    case 2
    then show ?thesis using Cons by (simp add: loop_T tare_closed)
  next
    case 3
    then show ?thesis using Cons by (simp add: loop_A read_average_closed)
  next
    case 4
    then show ?thesis using Cons loop_other [of s c rest] by simp
  qed
qed

lemma run_scale_sync: "SCALE (loadcell (run samples k inp n)) = scale (run samples k inp n)"
proof (induction n)
  case 0
  show ?case
    using setup_sketch_frame [of "initial samples k inp"] by (simp add: run_0 initial_def)
next
  case (Suc n)
  show ?case
  proof (cases "takes_C (run samples k inp n)")
    case True
    then obtain rest where "serial_in (run samples k inp n) = CHR ''C'' # rest"
      by (auto simp: takes_C_iff)
    then show ?thesis by (simp add: run_Suc loop_scale_C)
  next
    case False
    then show ?thesis using Suc by (simp add: run_Suc loop_scale_other)
  qed
qed

lemma run_scale_uncalibrated:
  "\<forall>m<n. \<not> takes_C (run samples k inp m) \<Longrightarrow> scale (run samples k inp n) = 1"
proof (induction n)
  case 0
  show ?case
    using setup_sketch_frame [of "initial samples k inp"] by (simp add: run_0 initial_def)
next
  case (Suc n)
  then have "scale (run samples k inp n) = 1" and "\<not> takes_C (run samples k inp n)"
    by simp_all
  then show ?case by (simp add: run_Suc loop_scale_other)
qed

lemma run_scale_latest:
  "m < n \<Longrightarrow> serial_in (run samples k inp m) = CHR ''C'' # rest \<Longrightarrow>
   \<forall>j. m < j \<and> j < n \<longrightarrow> \<not> takes_C (run samples k inp j) \<Longrightarrow>
   scale (run samples k inp n) = fst (parseFloat rest)"
proof (induction n)
  case 0
  then show ?case by simp
next
  case (Suc n)
  show ?case
  proof (cases "m = n")
    case True
    then show ?thesis using Suc.prems(2) by (simp add: run_Suc loop_scale_C)
  next
    case False
    then have mn: "m < n" using Suc.prems(1) by simp
    then have "\<not> takes_C (run samples k inp n)" using Suc.prems(3) by simp
    moreover have "scale (run samples k inp n) = fst (parseFloat rest)"
      using Suc.IH [OF mn Suc.prems(2)] Suc.prems(3) by simp
    ultimately show ?thesis by (simp add: run_Suc loop_scale_other)
  qed
qed

lemma run_scale_origin:
  "scale (run samples k inp n) = 1 \<or>
   (\<exists>m<n. \<exists>rest. serial_in (run samples k inp m) = CHR ''C'' # rest
       \<and> scale (run samples k inp n) = fst (parseFloat rest))"
proof (induction n)
  case 0
  show ?case
    using setup_sketch_frame [of "initial samples k inp"] by (simp add: run_0 initial_def)
next
  case (Suc n)
  show ?case
  proof (cases "takes_C (run samples k inp n)")
    case True
    then obtain rest where "serial_in (run samples k inp n) = CHR ''C'' # rest"
      by (auto simp: takes_C_iff)
    then show ?thesis using loop_scale_C [of "run samples k inp n" rest]
      by (auto simp: run_Suc)
  next
    case False
    then have "scale (run samples k inp (Suc n)) = scale (run samples k inp n)"
      by (simp add: run_Suc loop_scale_other)
    then show ?thesis using Suc less_Suc_eq by auto
  qed
qed

lemma run_RC0:
  "serial_in (run (steady 100) 3 ''RC0'' 0) = ''RC0''
   \<and> serial_in (run (steady 100) 3 ''RC0'' 1) = ''C0''"
proof -
  have i: "serial_in (run (steady 100) 3 ''RC0'' 0) = CHR ''R'' # ''C0''"
    using setup_sketch_frame [of "initial (steady 100) 3 ''RC0''"]
    by (simp add: run_0 initial_def)
  have "run (steady 100) 3 ''RC0'' 1 = loop (run (steady 100) 3 ''RC0'' 0)"
    using run_Suc [of "steady 100" 3 "''RC0''" 0] by simp
  then show ?thesis using i by (simp add: loop_R [OF i])
qed

text \<open>
  Claim C4, as amended. In every state reached by \<open>setup()\<close> and any number of passes
  of the loop, from the initial state with scale 1.0 and on any input, the scale of the
  instrument equals the sketch's \<open>scale\<close>. It is 1.0 as long as no pass has taken a
  \<open>C\<close> command, and afterwards it is the value parsed for the latest \<open>C\<close> command,
  which the loop installs unchecked. So the scale is zero only after a pass that took a
  \<open>C\<close> command whose argument parsed to zero.
\<close>

theorem scale_latest_calibration:
  "SCALE (loadcell (run samples k inp n)) = scale (run samples k inp n)
   \<and> ((\<forall>m<n. \<not> takes_C (run samples k inp m)) \<longrightarrow> scale (run samples k inp n) = 1)
   \<and> (\<forall>m<n. \<forall>rest.
         serial_in (run samples k inp m) = CHR ''C'' # rest
         \<and> (\<forall>j. m < j \<and> j < n \<longrightarrow> \<not> takes_C (run samples k inp j))
         \<longrightarrow> scale (run samples k inp n) = fst (parseFloat rest))
   \<and> (scale (run samples k inp n) = 0 \<longrightarrow>
         (\<exists>m<n. \<exists>rest. serial_in (run samples k inp m) = CHR ''C'' # rest
             \<and> fst (parseFloat rest) = 0))"
proof (intro conjI impI allI)
  show "SCALE (loadcell (run samples k inp n)) = scale (run samples k inp n)"
    by (rule run_scale_sync)
next
  assume "\<forall>m<n. \<not> takes_C (run samples k inp m)"
  then show "scale (run samples k inp n) = 1" by (rule run_scale_uncalibrated)
next
  fix m rest
  assume "m < n"
    and "serial_in (run samples k inp m) = CHR ''C'' # rest
         \<and> (\<forall>j. m < j \<and> j < n \<longrightarrow> \<not> takes_C (run samples k inp j))"
  then show "scale (run samples k inp n) = fst (parseFloat rest)"
    using run_scale_latest [of m n samples k inp rest] by simp
next
  assume "scale (run samples k inp n) = 0"
  then show "\<exists>m<n. \<exists>rest. serial_in (run samples k inp m) = CHR ''C'' # rest
               \<and> fst (parseFloat rest) = 0"
    using run_scale_origin [of samples k inp n] by auto
qed

theorem scale_latest_calibration_witness:
  "\<not> takes_C (run (steady 100) 3 ''RC0'' 0)
   \<and> scale (run (steady 100) 3 ''RC0'' 1) = 1
   \<and> SCALE (loadcell (run (steady 100) 3 ''RC0'' 1)) = 1
   \<and> serial_in (run (steady 100) 3 ''RC0'' 1) = CHR ''C'' # ''0''
   \<and> fst (parseFloat ''0'') = 0
   \<and> scale (run (steady 100) 3 ''RC0'' 2) = 0
   \<and> SCALE (loadcell (run (steady 100) 3 ''RC0'' 2)) = 0"
proof -
  have p: "fst (parseFloat ''0'') = 0"
    by (simp add: parseFloat_def skip_sign_def fraction_def is_digit_def Let_def)
  have c0: "\<not> takes_C (run (steady 100) 3 ''RC0'' 0)"
    using run_RC0 by (simp add: takes_C_def)
  have i1: "serial_in (run (steady 100) 3 ''RC0'' 1) = CHR ''C'' # ''0''"
    using run_RC0 by simp
  note t1 = scale_latest_calibration [of "steady 100" 3 "''RC0''" 1]
  note t2 = scale_latest_calibration [of "steady 100" 3 "''RC0''" 2]
  have a: "scale (run (steady 100) 3 ''RC0'' 1) = 1"
    using t1 c0 by simp
  have "(1::nat) < 2 \<and> serial_in (run (steady 100) 3 ''RC0'' 1) = CHR ''C'' # ''0''
        \<and> (\<forall>j. 1 < j \<and> j < 2 \<longrightarrow> \<not> takes_C (run (steady 100) 3 ''RC0'' j))"
    using i1 by auto
  then have b: "scale (run (steady 100) 3 ''RC0'' 2) = fst (parseFloat ''0'')"
    using t2 by blast
  show ?thesis
    using a b c0 i1 p t1 t2 by simp
qed

text \<open>
  Claim C4 as it is stated, that the scale is zero in no reachable state, fails: from
  the initial state, where the scale is 1.0, the input \<open>C0\<close> leads after one pass of
  the loop to a state in which the scale is zero, in the sketch and in the instrument.
\<close>

theorem scale_zero_reachable:
  "scale (initial (steady 100) 3 ''C0'') = 1
   \<and> SCALE (loadcell (initial (steady 100) 3 ''C0'')) = 1
   \<and> scale (run (steady 100) 3 ''C0'' 1) = 0
   \<and> SCALE (loadcell (run (steady 100) 3 ''C0'' 1)) = 0"
proof -
  have p: "parseFloat ''0'' = (0, [])"
    by (simp add: parseFloat_def skip_sign_def fraction_def is_digit_def Let_def)
  have i: "serial_in (setup_sketch (initial (steady 100) 3 ''C0'')) = CHR ''C'' # ''0''"
    using setup_sketch_frame [of "initial (steady 100) 3 ''C0''"] by (simp add: initial_def)
  have "run (steady 100) 3 ''C0'' 1 = loop (setup_sketch (initial (steady 100) 3 ''C0''))"
    by (simp add: run_def)
  then show ?thesis
    by (simp add: loop_C [OF i] p) (simp add: initial_def)
qed

end
